theory Spec2Isabelle
  imports Complex_Main
begin

section \<open>The tabular structure\<close>

text \<open>
  \<^verbatim>\<open>import_plays_to_sqlite.py\<close> reads a CSV file into a pandas DataFrame, promotes the
  text columns that are numeric throughout, and writes the frame into one SQLite table.
  A DataFrame is an ordered sequence of named columns; a column has a dtype and its
  cells. A cell is a missing marker (NaN, None, \<^verbatim>\<open><NA>\<close>), a string, a number or a bool.
  Floating-point values are carried as reals: no statement below depends on rounding.
\<close>

datatype number = IntN int | FloatN real

datatype cell = NA | Str string | Num number | Bool bool

text \<open>
  The dtypes the program meets: numpy's \<^verbatim>\<open>object\<close>, \<^verbatim>\<open>int64\<close>, \<^verbatim>\<open>float64\<close> and \<^verbatim>\<open>bool\<close>, and
  the nullable extension dtypes \<^verbatim>\<open>string\<close>, \<^verbatim>\<open>Int64\<close>, \<^verbatim>\<open>Float64\<close> and \<^verbatim>\<open>boolean\<close> that
  \<^verbatim>\<open>convert_dtypes\<close> assigns.
\<close>

datatype dtype = ObjectD | StringD | Int64D | Float64D | BoolD | NInt64D | NFloat64D | BooleanD

record column =
  name :: string
  dtype :: dtype
  cells :: "cell list"

type_synonym dataframe = "column list"

text \<open>
  The string parser inside \<^verbatim>\<open>pd.to_numeric\<close> is library code: it is a parameter of the
  model. \<open>parse s\<close> is the number a non-empty string \<open>s\<close> denotes, and \<open>None\<close> when
  \<open>s\<close> is no numeric literal (with \<^verbatim>\<open>errors="coerce"\<close> the cell becomes NaN) or denotes
  NaN itself.
\<close>

type_synonym parser = "string \<Rightarrow> number option"


section \<open>The coercion heuristic\<close>

fun notna :: "cell \<Rightarrow> bool" where
  "notna NA = False"
| "notna (Str s) = True"
| "notna (Num n) = True"
| "notna (Bool b) = True"

text \<open>
  \<^verbatim>\<open>s.astype(str).str.len() > 0\<close>: only the empty string is rendered as a string of
  length 0 (a number or a bool has at least one character, a missing cell is \<^verbatim>\<open>"nan"\<close>).
\<close>

fun str_len_pos :: "cell \<Rightarrow> bool" where
  "str_len_pos (Str s) = (0 < length s)"
| "str_len_pos NA = True"
| "str_len_pos (Num n) = True"
| "str_len_pos (Bool b) = True"

text \<open>\<^verbatim>\<open>non_null = s.notna() & (s.astype(str).str.len() > 0)\<close>, for one cell.\<close>

definition non_null :: "cell \<Rightarrow> bool" where
  "non_null c = (notna c \<and> str_len_pos c)"

text \<open>
  \<^verbatim>\<open>pd.to_numeric(s, errors="coerce")\<close>, cell by cell: a missing cell and the empty string
  become NaN, a string is parsed (NaN when it does not parse), numbers and bools pass.
\<close>

fun to_numeric_cell :: "parser \<Rightarrow> cell \<Rightarrow> cell" where
  "to_numeric_cell p NA = NA"
| "to_numeric_cell p (Str s) =
     (if s = [] then NA else (case p s of None \<Rightarrow> NA | Some n \<Rightarrow> Num n))"
| "to_numeric_cell p (Num n) = Num n"
| "to_numeric_cell p (Bool b) = Bool b"

fun is_float :: "cell \<Rightarrow> bool" where
  "is_float (Num (FloatN r)) = True"
| "is_float c = False"

fun is_int :: "cell \<Rightarrow> bool" where
  "is_int (Num (IntN i)) = True"
| "is_int c = False"

fun is_bool :: "cell \<Rightarrow> bool" where
  "is_bool (Bool b) = True"
| "is_bool c = False"

fun is_str :: "cell \<Rightarrow> bool" where
  "is_str (Str s) = True"
| "is_str c = False"

fun as_float :: "cell \<Rightarrow> cell" where
  "as_float (Num (IntN i)) = Num (FloatN (of_int i))"
| "as_float (Bool b) = Num (FloatN (if b then 1 else 0))"
| "as_float c = c"

fun as_int :: "cell \<Rightarrow> cell" where
  "as_int (Bool b) = Num (IntN (if b then 1 else 0))"
| "as_int c = c"

text \<open>
  The array \<^verbatim>\<open>to_numeric\<close> returns: \<^verbatim>\<open>float64\<close> as soon as a NaN or a float was seen,
  else \<^verbatim>\<open>int64\<close> when an integer was seen, else \<^verbatim>\<open>bool\<close> when a bool was seen.
\<close>

definition to_numeric :: "parser \<Rightarrow> cell list \<Rightarrow> dtype \<times> cell list" where
  "to_numeric p xs =
     (let ys = map (to_numeric_cell p) xs in
      if list_ex (\<lambda>c. \<not> notna c) ys \<or> list_ex is_float ys then (Float64D, map as_float ys)
      else if list_ex is_int ys then (Int64D, map as_int ys)
      else if list_ex is_bool ys then (BoolD, ys)
      else (Int64D, ys))"

text \<open>\<^verbatim>\<open>converted[non_null]\<close>: selection of the cells whose mask entry is True.\<close>

definition boolean_mask :: "'a list \<Rightarrow> bool list \<Rightarrow> 'a list" where
  "boolean_mask xs m = map fst (filter snd (zip xs m))"

definition is_object_dtype :: "dtype \<Rightarrow> bool" where
  "is_object_dtype d = (d = ObjectD)"

definition is_string_dtype :: "dtype \<Rightarrow> bool" where
  "is_string_dtype d = (d = StringD)"

text \<open>
  The body of the loop of \<^verbatim>\<open>coerce_numeric_columns\<close> for one column \<open>s\<close>: the converted
  column when the body reaches \<^verbatim>\<open>df[col] = converted\<close>, and \<open>None\<close> when it assigns nothing.
\<close>

definition adopted :: "parser \<Rightarrow> column \<Rightarrow> (dtype \<times> cell list) option" where
  "adopted p s =
     (if is_object_dtype (dtype s) \<or> is_string_dtype (dtype s) then
        (let mask = map non_null (cells s) in
         if list_ex (\<lambda>b. b) mask then
           (let converted = to_numeric p (cells s) in
            if list_all notna (boolean_mask (snd converted) mask) then Some converted
            else None)
         else None)
      else None)"

definition coerce_column :: "parser \<Rightarrow> column \<Rightarrow> column" where
  "coerce_column p s =
     (case adopted p s of
        None \<Rightarrow> s
      | Some converted \<Rightarrow> s\<lparr>dtype := fst converted, cells := snd converted\<rparr>)"


section \<open>Type refinement\<close>

text \<open>
  \<^verbatim>\<open>df.convert_dtypes()\<close> with its defaults, column by column. A numpy column moves to the
  nullable dtype of its kind; a \<^verbatim>\<open>float64\<close> column whose values other than NaN are all
  whole (\<^verbatim>\<open>(arr.astype(int) == arr).all()\<close>) becomes \<^verbatim>\<open>Int64\<close>; an object column whose
  values other than the missing ones are all strings becomes \<^verbatim>\<open>string\<close>, any other object
  column keeps its dtype; a column that already has an extension dtype is left as it is.
\<close>

fun integral :: "cell \<Rightarrow> bool" where
  "integral (Num (FloatN r)) = (of_int \<lfloor>r\<rfloor> = r)"
| "integral (Num (IntN i)) = True"
| "integral (Bool b) = True"
| "integral NA = True"
| "integral (Str s) = False"

fun float_to_int :: "cell \<Rightarrow> cell" where
  "float_to_int (Num (FloatN r)) = Num (IntN \<lfloor>r\<rfloor>)"
| "float_to_int c = c"

definition convert_column :: "column \<Rightarrow> column" where
  "convert_column s =
     (case dtype s of
        ObjectD \<Rightarrow>
          (if list_ex is_str (cells s) \<and> list_all (\<lambda>c. is_str c \<or> \<not> notna c) (cells s)
           then s\<lparr>dtype := StringD\<rparr> else s)
      | Int64D \<Rightarrow> s\<lparr>dtype := NInt64D\<rparr>
      | Float64D \<Rightarrow>
          (if list_all integral (filter notna (cells s))
           then s\<lparr>dtype := NInt64D, cells := map float_to_int (cells s)\<rparr>
           else s\<lparr>dtype := NFloat64D\<rparr>)
      | BoolD \<Rightarrow> s\<lparr>dtype := BooleanD\<rparr>
      | StringD \<Rightarrow> s
      | NInt64D \<Rightarrow> s
      | NFloat64D \<Rightarrow> s
      | BooleanD \<Rightarrow> s)"

datatype error = PandasError | CsvError | OSError | DatabaseError | ValueError

text \<open>
  The call stands in a \<^verbatim>\<open>try\<close> whose handler keeps the unrefined frame, so the model gives
  it a result that can be an error; on the frames of this model it never is one.
\<close>

definition convert_dtypes :: "dataframe \<Rightarrow> error + dataframe" where
  "convert_dtypes df = Inr (map convert_column df)"


section \<open>The coercion pass on the store\<close>

text \<open>
  DataFrames are mutable objects. The store is the list of the frames allocated so far and
  a reference is a position in it; \<^verbatim>\<open>df.copy()\<close> and \<^verbatim>\<open>convert_dtypes\<close> allocate a new
  frame, \<^verbatim>\<open>df[col] = converted\<close> overwrites a column of an existing one.
\<close>

type_synonym ref = nat
type_synonym store = "dataframe list"

definition alloc :: "store \<Rightarrow> dataframe \<Rightarrow> store \<times> ref" where
  "alloc h df = (h @ [df], length h)"

definition copy_frame :: "store \<Rightarrow> ref \<Rightarrow> store \<times> ref" where
  "copy_frame h r = alloc h (h ! r)"

definition setitem :: "store \<Rightarrow> ref \<Rightarrow> nat \<Rightarrow> dtype \<times> cell list \<Rightarrow> store" where
  "setitem h r i converted =
     h[r := (h ! r)[i := (h ! r ! i)\<lparr>dtype := fst converted, cells := snd converted\<rparr>]]"

text \<open>One iteration of \<^verbatim>\<open>for col in df.columns\<close>, on the column at position \<open>i\<close>.\<close>

definition loop_body :: "parser \<Rightarrow> ref \<Rightarrow> nat \<Rightarrow> store \<Rightarrow> store" where
  "loop_body p r i h =
     (case adopted p (h ! r ! i) of
        None \<Rightarrow> h
      | Some converted \<Rightarrow> setitem h r i converted)"

definition coerce_numeric_columns :: "parser \<Rightarrow> store \<Rightarrow> ref \<Rightarrow> store \<times> ref" where
  "coerce_numeric_columns p h df =
     (let (h1, df1) = copy_frame h df;
          h2 = fold (loop_body p df1) [0..<length (h1 ! df1)] h1
      in case convert_dtypes (h2 ! df1) of
           Inl e \<Rightarrow> (h2, df1)
         | Inr refined \<Rightarrow> alloc h2 refined)"

text \<open>The frame \<^verbatim>\<open>coerce_numeric_columns(df)\<close> returns when it is called on a frame \<open>df\<close>.\<close>

definition coerced :: "parser \<Rightarrow> dataframe \<Rightarrow> dataframe" where
  "coerced p df = (let (h, r) = coerce_numeric_columns p [df] 0 in h ! r)"

section \<open>Vocabulary of the properties\<close>

text \<open>
  A column stored as text has dtype \<^verbatim>\<open>object\<close> or \<^verbatim>\<open>string\<close> and holds strings and
  missing markers only. A cell parses when it is a string the parser maps to a number.
\<close>

definition text_column :: "column \<Rightarrow> bool" where
  "text_column s =
     ((dtype s = ObjectD \<or> dtype s = StringD) \<and> list_all (\<lambda>c. is_str c \<or> \<not> notna c) (cells s))"

definition parses :: "parser \<Rightarrow> cell \<Rightarrow> bool" where
  "parses p c = (case c of Str s \<Rightarrow> p s \<noteq> None | _ \<Rightarrow> False)"

definition numeric_dtype :: "dtype \<Rightarrow> bool" where
  "numeric_dtype d = (d = Int64D \<or> d = Float64D \<or> d = NInt64D \<or> d = NFloat64D)"

definition text_dtype :: "dtype \<Rightarrow> bool" where
  "text_dtype d = (d = ObjectD \<or> d = StringD)"

text \<open>The values a column of each dtype can hold.\<close>

fun compatible :: "dtype \<Rightarrow> cell \<Rightarrow> bool" where
  "compatible ObjectD c = True"
| "compatible StringD c = (is_str c \<or> \<not> notna c)"
| "compatible Int64D c = is_int c"
| "compatible Float64D c = (is_float c \<or> \<not> notna c)"
| "compatible BoolD c = is_bool c"
| "compatible NInt64D c = (is_int c \<or> \<not> notna c)"
| "compatible NFloat64D c = (is_float c \<or> \<not> notna c)"
| "compatible BooleanD c = (is_bool c \<or> \<not> notna c)"


text \<open>
  An instance of the parser parameter for concrete inputs: decimal integer literals with
  an optional minus sign, on which it agrees with \<^verbatim>\<open>pd.to_numeric\<close>.
\<close>

definition digit_of :: "char \<Rightarrow> nat option" where
  "digit_of c =
     (let k = (of_char c :: nat) in if 48 \<le> k \<and> k \<le> 57 then Some (k - 48) else None)"

fun digits_value :: "nat \<Rightarrow> string \<Rightarrow> nat option" where
  "digits_value acc [] = Some acc"
| "digits_value acc (c # cs) =
     (case digit_of c of None \<Rightarrow> None | Some d \<Rightarrow> digits_value (10 * acc + d) cs)"

definition integer_literal :: parser where
  "integer_literal s =
     (case s of
        [] \<Rightarrow> None
      | c # cs \<Rightarrow>
          if c = CHR ''-'' then
            (if cs = [] then None else map_option (\<lambda>n. IntN (- int n)) (digits_value 0 cs))
          else map_option (\<lambda>n. IntN (int n)) (digits_value 0 s))"



section \<open>The SQLite table\<close>

text \<open>
  A database is a map from table names to tables; a table has its declared columns (name
  and declared type) and its rows. \<^verbatim>\<open>df.to_sql(table_name, conn, if_exists=..., index=False)\<close>
  on a \<^verbatim>\<open>sqlite3\<close> connection declares each column with the type pandas keeps for the kind
  of its values (\<^verbatim>\<open>integer\<close> and \<^verbatim>\<open>boolean\<close>: INTEGER, \<^verbatim>\<open>floating\<close>: REAL, \<^verbatim>\<open>string\<close>, an
  empty column and everything else: TEXT) and binds a missing cell as NULL, a bool as the
  integer 0 or 1.
\<close>

datatype storage = INTEGER | REAL | TEXT

datatype sqlval = NULL | SqlInt int | SqlReal real | SqlText string

record table =
  columns :: "(string \<times> storage) list"
  rows :: "sqlval list list"

type_synonym database = "string \<rightharpoonup> table"

fun sql_type_name :: "dtype \<Rightarrow> storage" where
  "sql_type_name Int64D = INTEGER"
| "sql_type_name NInt64D = INTEGER"
| "sql_type_name Float64D = REAL"
| "sql_type_name NFloat64D = REAL"
| "sql_type_name BoolD = INTEGER"
| "sql_type_name BooleanD = INTEGER"
| "sql_type_name StringD = TEXT"
| "sql_type_name ObjectD = TEXT"

fun sql_value :: "cell \<Rightarrow> sqlval" where
  "sql_value NA = NULL"
| "sql_value (Str s) = SqlText s"
| "sql_value (Num (IntN i)) = SqlInt i"
| "sql_value (Num (FloatN r)) = SqlReal r"
| "sql_value (Bool b) = SqlInt (if b then 1 else 0)"

text \<open>\<^verbatim>\<open>len(df)\<close>: the columns of a frame have the same number of cells.\<close>

definition n_rows :: "dataframe \<Rightarrow> nat" where
  "n_rows df = (case df of [] \<Rightarrow> 0 | s # ss \<Rightarrow> length (cells s))"

definition frame_rows :: "dataframe \<Rightarrow> sqlval list list" where
  "frame_rows df = map (\<lambda>i. map (\<lambda>s. sql_value (cells s ! i)) df) [0..<n_rows df]"

definition table_of :: "dataframe \<Rightarrow> table" where
  "table_of df =
     \<lparr>columns = map (\<lambda>s. (name s, sql_type_name (dtype s))) df, rows = frame_rows df\<rparr>"

datatype if_exists = Fail | Replace | Append

text \<open>
  The rows an append inserts, laid out in the order of the columns of the existing table:
  a column of the table that the frame lacks gets NULL.
\<close>

definition appended_rows :: "table \<Rightarrow> dataframe \<Rightarrow> sqlval list list" where
  "appended_rows old df =
     map (\<lambda>i. map (\<lambda>c. case find (\<lambda>s. name s = fst c) df of
                           None \<Rightarrow> NULL
                         | Some s \<Rightarrow> sql_value (cells s ! i)) (columns old))
       [0..<n_rows df]"

definition to_sql :: "dataframe \<Rightarrow> string \<Rightarrow> if_exists \<Rightarrow> database \<Rightarrow> error + database" where
  "to_sql df tname policy db =
     (case db tname of
        None \<Rightarrow> Inr (db(tname \<mapsto> table_of df))
      | Some old \<Rightarrow>
          (case policy of
             Fail \<Rightarrow> Inl ValueError
           | Replace \<Rightarrow> Inr (db(tname \<mapsto> table_of df))
           | Append \<Rightarrow>
               if list_all (\<lambda>s. name s \<in> fst ` set (columns old)) df
               then Inr (db(tname \<mapsto> old\<lparr>rows := rows old @ appended_rows old df\<rparr>))
               else Inl DatabaseError))"


section \<open>Files and directories\<close>

text \<open>
  A path is the list of its components below the working directory, which is the empty
  path and always exists. A file holds plain bytes (a CSV text) or a SQLite database; the
  empty file is also the database with no table.
\<close>

type_synonym path = "string list"

datatype content = Plain string | Sqlite database

datatype node = Dir | File content

type_synonym world = "path \<rightharpoonup> node"

definition path_exists :: "path \<Rightarrow> world \<Rightarrow> bool" where
  "path_exists p w = (p = [] \<or> (case w p of None \<Rightarrow> False | Some n \<Rightarrow> True))"

definition isdir :: "path \<Rightarrow> world \<Rightarrow> bool" where
  "isdir p w =
     (p = [] \<or> (case w p of None \<Rightarrow> False | Some Dir \<Rightarrow> True | Some (File c) \<Rightarrow> False))"

text \<open>\<^verbatim>\<open>os.path.dirname(db_path) or "."\<close>: the path without its last component.\<close>

definition dirname :: "path \<Rightarrow> path" where
  "dirname p = butlast p"

text \<open>
  \<^verbatim>\<open>os.makedirs(d, exist_ok=True)\<close>, from the working directory down: a component that
  is missing is created, one that is a directory is kept, one that is a file is an error.
\<close>

fun makedirs_below :: "path \<Rightarrow> path \<Rightarrow> world \<Rightarrow> error + world" where
  "makedirs_below base [] w = Inr w"
| "makedirs_below base (x # xs) w =
     (case w (base @ [x]) of
        None \<Rightarrow> makedirs_below (base @ [x]) xs (w(base @ [x] \<mapsto> Dir))
      | Some Dir \<Rightarrow> makedirs_below (base @ [x]) xs w
      | Some (File c) \<Rightarrow> Inl OSError)"

definition makedirs :: "path \<Rightarrow> world \<Rightarrow> error + world" where
  "makedirs d w = makedirs_below [] d w"

text \<open>
  The paths \<^verbatim>\<open>makedirs\<close> visits: \<open>base\<close> extended by each non-empty prefix of the components
  below it.
\<close>

definition ancestors :: "path \<Rightarrow> path \<Rightarrow> path list" where
  "ancestors base xs = map (\<lambda>n. base @ take n xs) [1..<Suc (length xs)]"

fun is_file :: "node option \<Rightarrow> bool" where
  "is_file (Some (File c)) = True"
| "is_file v = False"

text \<open>
  \<^verbatim>\<open>sqlite3.connect(db_path)\<close>, with the first statement run on the connection: the
  database the file holds, the empty one when the file is new or empty, and an error when
  the path is a directory, lies in no directory, or holds bytes that are no database.
\<close>

definition open_database :: "path \<Rightarrow> world \<Rightarrow> error + database" where
  "open_database p w =
     (if p = [] then Inl DatabaseError
      else case w p of
        None \<Rightarrow> if isdir (dirname p) w then Inr Map.empty else Inl DatabaseError
      | Some Dir \<Rightarrow> Inl DatabaseError
      | Some (File (Sqlite db)) \<Rightarrow> Inr db
      | Some (File (Plain s)) \<Rightarrow> if s = [] then Inr Map.empty else Inl DatabaseError)"

definition write_sqlite ::
  "dataframe \<Rightarrow> path \<Rightarrow> string \<Rightarrow> if_exists \<Rightarrow> world \<Rightarrow> (error + unit) \<times> world" where
  "write_sqlite df db_path table_name policy w =
     (case makedirs (dirname db_path) w of
        Inl err \<Rightarrow> (Inl err, w)
      | Inr w1 \<Rightarrow>
          (case open_database db_path w1 of
             Inl err \<Rightarrow> (Inl err, w1)
           | Inr db \<Rightarrow>
               (case to_sql df table_name policy db of
                  Inl err \<Rightarrow> (Inl err, w1)
                | Inr db' \<Rightarrow> (Inr (), w1(db_path \<mapsto> File (Sqlite db'))))))"


section \<open>The command\<close>

text \<open>
  Library behaviour the program relies on and does not define is a parameter: the numeric
  parser of \<^verbatim>\<open>pd.to_numeric\<close>, the frame \<^verbatim>\<open>pd.read_csv\<close> builds from the bytes of a file (or
  its error), and the table that SQLite understands when the text of \<^verbatim>\<open>--table\<close> stands
  unquoted in a statement (\<open>None\<close> when the statement does not parse).
\<close>

record env =
  parse :: parser
  read_csv :: "content \<Rightarrow> error + dataframe"
  sql_name :: "string \<Rightarrow> string option"

record args =
  csv_path :: path
  db_path :: path
  table_name :: string


definition load_csv :: "env \<Rightarrow> path \<Rightarrow> world \<Rightarrow> error + dataframe" where
  "load_csv e p w =
     (case w p of
        None \<Rightarrow> Inl OSError
      | Some Dir \<Rightarrow> Inl OSError
      | Some (File c) \<Rightarrow>
          (case read_csv e c of
             Inl err \<Rightarrow> Inl err
           | Inr df \<Rightarrow> Inr (coerced (parse e) df)))"

text \<open>What a run prints: the shape and dtypes of the frame, then the schema and the row
  count it reads back from the database.\<close>

record report =
  rows_loaded :: nat
  columns_loaded :: nat
  dtypes_shown :: "(string \<times> dtype) list"
  schema_shown :: "(string \<times> storage) list"
  count_shown :: nat

datatype outcome = Returned int report | SystemExit string | Raised error

definition path_text :: "path \<Rightarrow> string" where
  "path_text p = (case p of [] \<Rightarrow> ''.'' | x # xs \<Rightarrow> foldl (\<lambda>acc y. acc @ ''/'' @ y) x xs)"

text \<open>
  The check after the write: \<^verbatim>\<open>PRAGMA table_info({table_name})\<close> and
  \<^verbatim>\<open>SELECT COUNT(*) FROM {table_name}\<close>, with the name put into the statement as it is.
\<close>

definition read_back :: "env \<Rightarrow> string \<Rightarrow> database \<Rightarrow> error + (string \<times> storage) list \<times> nat" where
  "read_back e tname db =
     (case sql_name e tname of
        None \<Rightarrow> Inl DatabaseError
      | Some t \<Rightarrow>
          (case db t of
             None \<Rightarrow> Inl DatabaseError
           | Some tb \<Rightarrow> Inr (columns tb, length (rows tb))))"

definition main :: "env \<Rightarrow> args \<Rightarrow> world \<Rightarrow> outcome \<times> world" where
  "main e a w =
     (if \<not> path_exists (csv_path a) w
      then (SystemExit (''CSV not found: '' @ path_text (csv_path a)), w)
      else case load_csv e (csv_path a) w of
        Inl err \<Rightarrow> (Raised err, w)
      | Inr df \<Rightarrow>
          (case write_sqlite df (db_path a) (table_name a) Replace w of
             (Inl err, w1) \<Rightarrow> (Raised err, w1)
           | (Inr u, w1) \<Rightarrow>
               (case open_database (db_path a) w1 of
                  Inl err \<Rightarrow> (Raised err, w1)
                | Inr db \<Rightarrow>
                    (case read_back e (table_name a) db of
                       Inl err \<Rightarrow> (Raised err, w1)
                     | Inr (schema, n) \<Rightarrow>
                         (Returned 0
                            \<lparr>rows_loaded = n_rows df, columns_loaded = length df,
                             dtypes_shown = map (\<lambda>s. (name s, dtype s)) df,
                             schema_shown = schema, count_shown = n\<rparr>, w1)))))"



section \<open>Instances of the parameters for concrete runs\<close>

text \<open>
  A small CSV reader: one record per line, fields separated by commas, no quoting, the
  first line the header; every column is read as text and an empty field as missing.
\<close>

fun split_from :: "char \<Rightarrow> string \<Rightarrow> string \<Rightarrow> string list" where
  "split_from c cur [] = [rev cur]"
| "split_from c cur (x # xs) =
     (if x = c then rev cur # split_from c [] xs else split_from c (x # cur) xs)"

definition split_on :: "char \<Rightarrow> string \<Rightarrow> string list" where
  "split_on c s = split_from c [] s"

definition field_cell :: "string \<Rightarrow> cell" where
  "field_cell f = (if f = [] then NA else Str f)"

definition simple_read_csv :: "content \<Rightarrow> error + dataframe" where
  "simple_read_csv c =
     (case c of
        Sqlite db \<Rightarrow> Inl CsvError
      | Plain s \<Rightarrow>
          if s = [] then Inl CsvError
          else
            (let recs = map (split_on CHR '','') (split_on (CHR 0x0A) s);
                 header = hd recs; body = tl recs
             in if list_all (\<lambda>r. length r = length header) body
                then Inr (map (\<lambda>j. \<lparr>name = header ! j, dtype = ObjectD,
                                      cells = map (\<lambda>r. field_cell (r ! j)) body\<rparr>)
                            [0..<length header])
                else Inl CsvError))"

text \<open>
  How SQLite reads a name that stands unquoted in a statement: a name in double quotes
  is the name between the quotes, a name of letters, digits and underscores that starts
  with no digit is itself, anything else is taken as a syntax error here.
\<close>

definition name_char :: "char \<Rightarrow> bool" where
  "name_char c =
     (let k = (of_char c :: nat)
      in (48 \<le> k \<and> k \<le> 57) \<or> (65 \<le> k \<and> k \<le> 90) \<or> (97 \<le> k \<and> k \<le> 122) \<or> k = 95)"

definition sqlite_name :: "string \<Rightarrow> string option" where
  "sqlite_name s =
     (if 2 \<le> length s \<and> hd s = CHR 0x22 \<and> last s = CHR 0x22 then
        (if CHR 0x22 \<in> set (butlast (tl s)) \<or> butlast (tl s) = [] then None
         else Some (butlast (tl s)))
      else if s \<noteq> [] \<and> list_all name_char s \<and> digit_of (hd s) = None then Some s
      else None)"

definition sample_env :: env where
  "sample_env = \<lparr>parse = integer_literal, read_csv = simple_read_csv, sql_name = sqlite_name\<rparr>"

text \<open>
  A working directory with one CSV file of three columns and two records, a run that
  writes below directories that do not exist yet, and a second working directory that
  already holds a database with a table \<^verbatim>\<open>plays\<close> of three rows.
\<close>

definition sample_csv :: string where
  "sample_csv = ''down,gain,note'' @ [CHR 0x0A] @ ''1,2,x'' @ [CHR 0x0A] @ '',3,''"

definition sample_world :: world where
  "sample_world = [[''data''] \<mapsto> Dir, [''data'', ''plays.csv''] \<mapsto> File (Plain sample_csv)]"

definition sample_args :: args where
  "sample_args =
     \<lparr>csv_path = [''data'', ''plays.csv''], db_path = [''out'', ''db'', ''plays.db''],
      table_name = ''plays''\<rparr>"

definition old_table :: table where
  "old_table =
     \<lparr>columns = [(''team'', TEXT)], rows = [[SqlText ''a''], [SqlText ''b''], [SqlText ''c'']]\<rparr>"

definition used_world :: world where
  "used_world =
     [[''data''] \<mapsto> Dir, [''data'', ''plays.csv''] \<mapsto> File (Plain sample_csv),
      [''plays.db''] \<mapsto> File (Sqlite [''plays'' \<mapsto> old_table])]"

definition quoted_args :: args where
  "quoted_args =
     \<lparr>csv_path = [''data'', ''plays.csv''], db_path = [''plays.db''],
      table_name = CHR 0x22 # ''plays'' @ [CHR 0x22]\<rparr>"

text \<open>The frame the loader makes of the sample file.\<close>

definition sample_frame :: dataframe where
  "sample_frame =
     [\<lparr>name = ''down'', dtype = NInt64D, cells = [Num (IntN 1), NA]\<rparr>,
      \<lparr>name = ''gain'', dtype = NInt64D, cells = [Num (IntN 2), Num (IntN 3)]\<rparr>,
      \<lparr>name = ''note'', dtype = StringD, cells = [Str ''x'', NA]\<rparr>]"


section \<open>The loop of the coercion pass, column by column\<close>

lemma boolean_mask_map: "boolean_mask (map f xs) (map g xs) = map f (filter g xs)"
  by (induction xs) (simp_all add: boolean_mask_def)

lemma notna_as_float: "notna (as_float c) = notna c"
  by (cases c rule: as_float.cases) simp_all

lemma notna_as_int: "notna (as_int c) = notna c"
  by (cases c rule: as_int.cases) simp_all

lemma to_numeric_masked:
  "list_all notna (boolean_mask (snd (to_numeric p xs)) (map g xs))
     = list_all (\<lambda>c. notna (to_numeric_cell p c)) (filter g xs)"
  by (simp add: to_numeric_def Let_def boolean_mask_map list_all_iff notna_as_float notna_as_int)

lemma adopted_iff:
  "adopted p s \<noteq> None \<longleftrightarrow>
     (dtype s = ObjectD \<or> dtype s = StringD) \<and> (\<exists>c\<in>set (cells s). non_null c) \<and>
     (\<forall>c\<in>set (cells s). non_null c \<longrightarrow> notna (to_numeric_cell p c))"
  unfolding adopted_def Let_def to_numeric_masked
  by (auto simp: is_object_dtype_def is_string_dtype_def list_ex_iff list_all_iff)

lemma adopted_Some: "adopted p s = Some x \<Longrightarrow> x = to_numeric p (cells s)"
  by (auto simp: adopted_def Let_def split: if_splits)

lemma loop_body_eq: "loop_body p r i h = h[r := (h ! r)[i := coerce_column p (h ! r ! i)]]"
  by (simp add: loop_body_def coerce_column_def setitem_def split: option.splits)

lemma fold_update_columns:
  "n \<le> length d \<Longrightarrow> fold (\<lambda>i d. d[i := g (d ! i)]) [0..<n] d = map g (take n d) @ drop n d"
proof (induction n)
  case 0
  then show ?case by simp
next
  case (Suc n)
  then have n: "n < length d" by simp
  have "fold (\<lambda>i d. d[i := g (d ! i)]) [0..<Suc n] d
      = (map g (take n d) @ drop n d)[n := g ((map g (take n d) @ drop n d) ! n)]"
    using Suc by simp
  also have "(map g (take n d) @ drop n d) ! n = d ! n"
    using n by (simp add: nth_append)
  also have "(map g (take n d) @ drop n d)[n := g (d ! n)]
      = map g (take n d) @ (drop n d)[0 := g (d ! n)]"
    using n by (simp add: list_update_append)
  also have "(drop n d)[0 := g (d ! n)] = g (d ! n) # drop (Suc n) d"
    using n by (simp flip: Cons_nth_drop_Suc)
  finally show ?case
    using n by (simp add: take_Suc_conv_app_nth)
qed

lemma fold_at_ref:
  "r < length h \<Longrightarrow> fold (\<lambda>i h. h[r := f i (h ! r)]) ns h = h[r := fold f ns (h ! r)]"
  by (induction ns arbitrary: h) simp_all

lemma loop_result:
  assumes "r < length h"
  shows "fold (loop_body p r) [0..<length (h ! r)] h = h[r := map (coerce_column p) (h ! r)]"
proof -
  define F where "F = (\<lambda>i (d :: dataframe). d[i := coerce_column p (d ! i)])"
  have "loop_body p r = (\<lambda>i h. h[r := F i (h ! r)])"
    by (intro ext) (simp add: loop_body_eq F_def)
  then have "fold (loop_body p r) [0..<length (h ! r)] h
      = h[r := fold F [0..<length (h ! r)] (h ! r)]"
    using assms by (simp only: fold_at_ref)
  also have "fold F [0..<length (h ! r)] (h ! r) = map (coerce_column p) (h ! r)"
    unfolding F_def by (simp add: fold_update_columns)
  finally show ?thesis .
qed

lemma coerce_numeric_columns_eq:
  assumes "r < length h"
  shows "coerce_numeric_columns p h r =
    (h @ [map (coerce_column p) (h ! r), map (\<lambda>s. convert_column (coerce_column p s)) (h ! r)],
     Suc (length h))"
proof -
  have "fold (loop_body p (length h)) [0..<length ((h @ [h ! r]) ! length h)] (h @ [h ! r])
      = (h @ [h ! r])[length h := map (coerce_column p) ((h @ [h ! r]) ! length h)]"
    by (rule loop_result) simp
  then show ?thesis
    by (simp add: coerce_numeric_columns_def copy_frame_def alloc_def convert_dtypes_def)
qed

lemma coerced_eq: "coerced p df = map (\<lambda>s. convert_column (coerce_column p s)) df"
  by (simp add: coerced_def coerce_numeric_columns_eq)


lemma text_cell_cases: "is_str c \<or> \<not> notna c \<Longrightarrow> (\<exists>s. c = Str s) \<or> c = NA"
  by (cases c) simp_all


lemma not_non_null_iff: "\<not> non_null c \<longleftrightarrow> c = NA \<or> c = Str []"
  by (cases c) (auto simp: non_null_def)

lemma to_numeric_null: "\<not> non_null c \<Longrightarrow> to_numeric_cell p c = NA"
  by (auto simp: not_non_null_iff)

lemma to_numeric_cell_not_str: "\<not> is_str (to_numeric_cell p c)"
  by (cases c) (auto split: option.splits)

lemma to_numeric_length: "length (snd (to_numeric p xs)) = length xs"
  by (simp add: to_numeric_def Let_def)

lemma to_numeric_nth_null:
  "j < length xs \<Longrightarrow> \<not> non_null (xs ! j) \<Longrightarrow> snd (to_numeric p xs) ! j = NA"
  by (auto simp: to_numeric_def Let_def to_numeric_null list_ex_iff)





lemma convert_column_length: "length (cells (convert_column s)) = length (cells s)"
  by (simp add: convert_column_def split: dtype.splits)

lemma convert_column_nth_null:
  "j < length (cells s) \<Longrightarrow> cells s ! j = NA \<Longrightarrow> cells (convert_column s) ! j = NA"
  by (simp add: convert_column_def split: dtype.splits)






section \<open>The adoption rule\<close>

lemmas eval_defs = coerced_eq coerce_column_def adopted_def to_numeric_def boolean_mask_def
  convert_column_def non_null_def is_object_dtype_def is_string_dtype_def text_column_def
  parses_def numeric_dtype_def text_dtype_def integer_literal_def digit_of_def Let_def






text \<open>
  Claim C2. Missing and empty cells do not count in the rule: a column is adopted exactly
  when the column of its other cells is. After adoption the column has as many cells as
  before and every cell that was missing or empty is null. The column \<open>["1", "", "3"]\<close>
  becomes \<^verbatim>\<open>Int64\<close> with a null in the middle, for every parser that reads \<open>"1"\<close> and
  \<open>"3"\<close> as the integers 1 and 3.
\<close>

theorem missing_cells_neither_block_nor_change:
  assumes "i < length df"
  shows "((adopted p (df ! i) \<noteq> None) =
            (adopted p ((df ! i)\<lparr>cells := filter non_null (cells (df ! i))\<rparr>) \<noteq> None)) \<and>
         length (cells (coerced p df ! i)) = length (cells (df ! i)) \<and>
         (adopted p (df ! i) \<noteq> None \<longrightarrow>
            (\<forall>j < length (cells (df ! i)).
               cells (df ! i) ! j = NA \<or> cells (df ! i) ! j = Str [] \<longrightarrow>
               cells (coerced p df ! i) ! j = NA)) \<and>
         (p ''1'' = Some (IntN 1) \<and> p ''3'' = Some (IntN 3) \<longrightarrow>
            coerced p [\<lparr>name = n, dtype = ObjectD, cells = [Str ''1'', Str '''', Str ''3'']\<rparr>]
              = [\<lparr>name = n, dtype = NInt64D, cells = [Num (IntN 1), NA, Num (IntN 3)]\<rparr>])"
proof -
  let ?s = "df ! i"
  have out: "coerced p df ! i = convert_column (coerce_column p ?s)"
    using assms by (simp add: coerced_eq)
  have a: "(adopted p ?s \<noteq> None) = (adopted p (?s\<lparr>cells := filter non_null (cells ?s)\<rparr>) \<noteq> None)"
    unfolding adopted_iff by auto
  have len: "length (cells (coerce_column p ?s)) = length (cells ?s)"
  proof (cases "adopted p ?s")
    case None
    then show ?thesis by (simp add: coerce_column_def)
  next
    case (Some x)
    then show ?thesis
      using adopted_Some [OF Some] by (simp add: coerce_column_def to_numeric_length)
  qed
  have b: "length (cells (coerced p df ! i)) = length (cells ?s)"
    by (simp add: out convert_column_length len)
  have c: "cells (coerced p df ! i) ! j = NA"
    if ad: "adopted p ?s \<noteq> None" and j: "j < length (cells ?s)"
      and e: "cells ?s ! j = NA \<or> cells ?s ! j = Str []" for j
  proof -
    obtain x where x: "adopted p ?s = Some x" using ad by auto
    then have "cells (coerce_column p ?s) = snd (to_numeric p (cells ?s))"
      using adopted_Some [OF x] by (simp add: coerce_column_def)
    moreover have "\<not> non_null (cells ?s ! j)"
      using e by (simp add: not_non_null_iff)
    ultimately have "cells (coerce_column p ?s) ! j = NA"
      using j by (simp add: to_numeric_nth_null)
    then show ?thesis
      using j len by (simp add: out convert_column_nth_null)
  qed
  have d: "p ''1'' = Some (IntN 1) \<and> p ''3'' = Some (IntN 3) \<longrightarrow>
      coerced p [\<lparr>name = n, dtype = ObjectD, cells = [Str ''1'', Str '''', Str ''3'']\<rparr>]
        = [\<lparr>name = n, dtype = NInt64D, cells = [Num (IntN 1), NA, Num (IntN 3)]\<rparr>]"
    by (simp add: eval_defs)
  show ?thesis
    using a b c d by blast
qed

text \<open>C2 on the column \<open>["1", "", "3"]\<close> with the integer literal parser.\<close>

theorem missing_cells_neither_block_nor_change_witness:
  "adopted integer_literal
     \<lparr>name = ''down'', dtype = ObjectD, cells = [Str ''1'', Str '''', Str ''3'']\<rparr> \<noteq> None \<and>
   adopted integer_literal
     \<lparr>name = ''down'', dtype = ObjectD, cells = [Str ''1'', Str ''3'']\<rparr> \<noteq> None \<and>
   cells (coerced integer_literal
     [\<lparr>name = ''down'', dtype = ObjectD, cells = [Str ''1'', Str '''', Str ''3'']\<rparr>] ! 0) ! 1 = NA \<and>
   coerced integer_literal
     [\<lparr>name = ''down'', dtype = ObjectD, cells = [Str ''1'', Str '''', Str ''3'']\<rparr>]
     = [\<lparr>name = ''down'', dtype = NInt64D, cells = [Num (IntN 1), NA, Num (IntN 3)]\<rparr>]"
proof -
  let ?s = "\<lparr>name = ''down'', dtype = ObjectD, cells = [Str ''1'', Str '''', Str ''3'']\<rparr>"
  have h1: "0 < length [?s]" by simp
  have h2: "integer_literal ''1'' = Some (IntN 1) \<and> integer_literal ''3'' = Some (IntN 3)"
    by (simp add: integer_literal_def digit_of_def)
  have h3: "adopted integer_literal ([?s] ! 0) \<noteq> None"
    by (simp add: eval_defs)
  show ?thesis
    using missing_cells_neither_block_nor_change [OF h1, of integer_literal "''down''"] h2 h3
    by (simp add: non_null_def)
qed

section \<open>Typing, and the argument frame\<close>




lemma bool_compatible:
  "notna y \<Longrightarrow> \<not> is_float y \<Longrightarrow> \<not> is_int y \<Longrightarrow>
     y = NA \<or> is_int y \<or> is_float y \<or> is_bool y \<Longrightarrow> compatible BoolD y"
  by auto





lemma int_nullable_compatible: "compatible Int64D c \<Longrightarrow> compatible NInt64D c"
  by simp

lemma bool_nullable_compatible: "compatible BoolD c \<Longrightarrow> compatible BooleanD c"
  by simp



text \<open>
  Claim C10. \<^verbatim>\<open>coerce_numeric_columns\<close> does not mutate its input: every frame of the store
  it is called in, the argument among them, is the same after the call, and the reference
  it returns is a new one.
\<close>

theorem coerce_numeric_columns_leaves_argument:
  assumes "df < length h"
  shows "take (length h) (fst (coerce_numeric_columns p h df)) = h \<and>
         fst (coerce_numeric_columns p h df) ! df = h ! df \<and>
         length h \<le> snd (coerce_numeric_columns p h df) \<and>
         snd (coerce_numeric_columns p h df) < length (fst (coerce_numeric_columns p h df))"
  using assms by (simp add: coerce_numeric_columns_eq nth_append)

text \<open>C10 on a store that holds one frame.\<close>

theorem coerce_numeric_columns_leaves_argument_witness:
  "fst (coerce_numeric_columns integer_literal
      [[\<lparr>name = ''down'', dtype = ObjectD, cells = [Str ''1'', Str '''', Str ''3'']\<rparr>]] 0) ! 0
     = [\<lparr>name = ''down'', dtype = ObjectD, cells = [Str ''1'', Str '''', Str ''3'']\<rparr>] \<and>
   0 < snd (coerce_numeric_columns integer_literal
      [[\<lparr>name = ''down'', dtype = ObjectD, cells = [Str ''1'', Str '''', Str ''3'']\<rparr>]] 0)"
proof -
  let ?h = "[[\<lparr>name = ''down'', dtype = ObjectD, cells = [Str ''1'', Str '''', Str ''3'']\<rparr>]]"
  have h1: "0 < length ?h" by simp
  show ?thesis
    using coerce_numeric_columns_leaves_argument [OF h1, of integer_literal] by simp
qed



section \<open>Directories, the write and the run\<close>

lemma isdir_iff: "isdir p w \<longleftrightarrow> p = [] \<or> w p = Some Dir"
  by (auto simp: isdir_def split: option.splits node.splits)

lemma path_exists_iff: "path_exists p w \<longleftrightarrow> p = [] \<or> w p \<noteq> None"
  by (auto simp: path_exists_def split: option.splits)

lemma ancestors_Cons: "ancestors base (x # xs) = (base @ [x]) # ancestors (base @ [x]) xs"
proof -
  have "[1..<Suc (Suc (length xs))] = 1 # map Suc [1..<Suc (length xs)]"
    by (simp add: upt_conv_Cons map_Suc_upt del: upt_Suc)
  then show ?thesis
    by (simp add: ancestors_def comp_def del: upt_Suc)
qed

lemma ancestors_longer: "q \<in> set (ancestors base xs) \<Longrightarrow> length base < length q"
  by (auto simp: ancestors_def)

lemma ancestors_iff:
  "q \<in> set (ancestors base xs) \<longleftrightarrow> (\<exists>n. 0 < n \<and> n \<le> length xs \<and> q = base @ take n xs)"
proof -
  have "set [1..<Suc (length xs)] = {n. 0 < n \<and> n \<le> length xs}"
    by (auto simp del: upt_Suc)
  then show ?thesis
    unfolding ancestors_def set_map by blast
qed

lemma makedirs_below_eq:
  "makedirs_below base xs w =
     (if list_ex (\<lambda>q. is_file (w q)) (ancestors base xs) then Inl OSError
      else Inr (\<lambda>q. if q \<in> set (ancestors base xs) then Some Dir else w q))"
proof (induction xs arbitrary: base w)
  case Nil
  then show ?case by (simp add: ancestors_def)
next
  case (Cons x xs)
  let ?b = "base @ [x]"
  have notin: "?b \<notin> set (ancestors ?b xs)"
    using ancestors_longer [of ?b ?b xs] by auto
  show ?case
  proof (cases "w ?b")
    case None
    have same: "\<And>q. q \<in> set (ancestors ?b xs) \<Longrightarrow> (w(?b \<mapsto> Dir)) q = w q"
      using notin by auto
    then have ex: "list_ex (\<lambda>q. is_file ((w(?b \<mapsto> Dir)) q)) (ancestors ?b xs)
        = list_ex (\<lambda>q. is_file (w q)) (ancestors ?b xs)"
      by (simp add: list_ex_iff)
    have upd: "(\<lambda>q. if q \<in> set (ancestors ?b xs) then Some Dir else (w(?b \<mapsto> Dir)) q)
        = (\<lambda>q. if q \<in> set (ancestors base (x # xs)) then Some Dir else w q)"
      by (auto simp: ancestors_Cons)
    have "makedirs_below base (x # xs) w = makedirs_below ?b xs (w(?b \<mapsto> Dir))"
      using None by simp
    also have "\<dots> =
        (if list_ex (\<lambda>q. is_file ((w(?b \<mapsto> Dir)) q)) (ancestors ?b xs) then Inl OSError
         else Inr (\<lambda>q. if q \<in> set (ancestors ?b xs) then Some Dir else (w(?b \<mapsto> Dir)) q))"
      by (rule Cons.IH)
    also have "\<dots> =
        (if list_ex (\<lambda>q. is_file (w q)) (ancestors ?b xs) then Inl OSError
         else Inr (\<lambda>q. if q \<in> set (ancestors base (x # xs)) then Some Dir else w q))"
      unfolding ex upd ..
    also have "list_ex (\<lambda>q. is_file (w q)) (ancestors ?b xs)
        = list_ex (\<lambda>q. is_file (w q)) (ancestors base (x # xs))"
      using None by (simp add: ancestors_Cons)
    finally show ?thesis .
  next
    case (Some nd)
    show ?thesis
    proof (cases nd)
      case Dir
      have upd: "(\<lambda>q. if q \<in> set (ancestors ?b xs) then Some Dir else w q)
          = (\<lambda>q. if q \<in> set (ancestors base (x # xs)) then Some Dir else w q)"
        using Some Dir by (auto simp: ancestors_Cons)
      have "makedirs_below base (x # xs) w = makedirs_below ?b xs w"
        using Some Dir by simp
      also have "\<dots> =
          (if list_ex (\<lambda>q. is_file (w q)) (ancestors ?b xs) then Inl OSError
           else Inr (\<lambda>q. if q \<in> set (ancestors ?b xs) then Some Dir else w q))"
        by (rule Cons.IH)
      also have "\<dots> =
          (if list_ex (\<lambda>q. is_file (w q)) (ancestors ?b xs) then Inl OSError
           else Inr (\<lambda>q. if q \<in> set (ancestors base (x # xs)) then Some Dir else w q))"
        unfolding upd ..
      also have "list_ex (\<lambda>q. is_file (w q)) (ancestors ?b xs)
          = list_ex (\<lambda>q. is_file (w q)) (ancestors base (x # xs))"
        using Some Dir by (simp add: ancestors_Cons)
      finally show ?thesis .
    next
      case (File c)
      then show ?thesis
        using Some by (simp add: ancestors_Cons)
    qed
  qed
qed

lemma makedirs_eq:
  "makedirs d w =
     (if list_ex (\<lambda>q. is_file (w q)) (ancestors [] d) then Inl OSError
      else Inr (\<lambda>q. if q \<in> set (ancestors [] d) then Some Dir else w q))"
  by (simp add: makedirs_def makedirs_below_eq)

lemma makedirs_dirs:
  assumes "makedirs d w = Inr w1"
  shows "(\<forall>n. 0 < n \<and> n \<le> length d \<longrightarrow> w1 (take n d) = Some Dir) \<and> isdir d w1 \<and>
         (\<forall>q. w q \<noteq> None \<longrightarrow> w1 q = w q)"
proof -
  have w1: "w1 = (\<lambda>q. if q \<in> set (ancestors [] d) then Some Dir else w q)"
    and nofile: "\<not> list_ex (\<lambda>q. is_file (w q)) (ancestors [] d)"
    using assms by (auto simp: makedirs_eq split: if_splits)
  have a: "\<forall>n. 0 < n \<and> n \<le> length d \<longrightarrow> w1 (take n d) = Some Dir"
    by (auto simp: w1 ancestors_iff)
  have b: "isdir d w1"
  proof (cases "d = []")
    case False
    then have "w1 (take (length d) d) = Some Dir" using a by blast
    then show ?thesis by (simp add: isdir_iff)
  qed (simp add: isdir_iff)
  have c: "w1 q = w q" if "w q \<noteq> None" for q
  proof (cases "q \<in> set (ancestors [] d)")
    case True
    then have "\<not> is_file (w q)" using nofile by (auto simp: list_ex_iff)
    then have "w q = Some Dir" using that by (cases "w q" rule: is_file.cases) auto
    then show ?thesis using True by (simp add: w1)
  qed (simp add: w1)
  show ?thesis using a b c by blast
qed

lemma makedirs_again:
  assumes "\<forall>n. 0 < n \<and> n \<le> length d \<longrightarrow> w (take n d) = Some Dir"
  shows "makedirs d w = Inr w"
proof -
  have dirs: "\<And>q. q \<in> set (ancestors [] d) \<Longrightarrow> w q = Some Dir"
    using assms by (auto simp: ancestors_iff)
  then have "\<not> list_ex (\<lambda>q. is_file (w q)) (ancestors [] d)"
    by (auto simp: list_ex_iff)
  moreover have "(\<lambda>q. if q \<in> set (ancestors [] d) then Some Dir else w q) = w"
    using dirs by auto
  ultimately show ?thesis by (simp add: makedirs_eq)
qed

lemma to_sql_replace: "to_sql df tname Replace db = Inr (db(tname \<mapsto> table_of df))"
  by (simp add: to_sql_def split: option.splits)


lemma length_frame_rows: "length (frame_rows df) = n_rows df"
  by (simp add: frame_rows_def)

lemma write_sqlite_replace_ok:
  assumes "write_sqlite df p tname Replace w = (Inr u, w1)"
  shows "\<exists>wm db. makedirs (dirname p) w = Inr wm \<and> open_database p wm = Inr db \<and> p \<noteq> [] \<and>
           w1 = wm(p \<mapsto> File (Sqlite (db(tname \<mapsto> table_of df))))"
proof -
  obtain wm where mk: "makedirs (dirname p) w = Inr wm"
  proof (cases "makedirs (dirname p) w")
    case (Inl err)
    then show ?thesis using assms by (simp add: write_sqlite_def)
  next
    case (Inr wm)
    then show ?thesis using that by simp
  qed
  obtain db where op: "open_database p wm = Inr db"
  proof (cases "open_database p wm")
    case (Inl err)
    then show ?thesis using assms mk by (simp add: write_sqlite_def)
  next
    case (Inr db)
    then show ?thesis using that by simp
  qed
  have ne: "p \<noteq> []"
    using op by (auto simp: open_database_def)
  have "w1 = wm(p \<mapsto> File (Sqlite (db(tname \<mapsto> table_of df))))"
    using assms mk op by (simp add: write_sqlite_def to_sql_replace)
  then show ?thesis using mk op ne by blast
qed

lemma open_database_written: "p \<noteq> [] \<Longrightarrow> open_database p (w(p \<mapsto> File (Sqlite db))) = Inr db"
  by (simp add: open_database_def)

text \<open>What a run that returns has done.\<close>

lemma main_returned:
  assumes "main e a w = (Returned n rep, w1)"
  shows "\<exists>df wm db0.
           path_exists (csv_path a) w \<and>
           load_csv e (csv_path a) w = Inr df \<and>
           makedirs (dirname (db_path a)) w = Inr wm \<and>
           open_database (db_path a) wm = Inr db0 \<and> db_path a \<noteq> [] \<and>
           w1 = wm(db_path a \<mapsto> File (Sqlite (db0(table_name a \<mapsto> table_of df)))) \<and>
           n = 0 \<and>
           read_back e (table_name a) (db0(table_name a \<mapsto> table_of df))
             = Inr (schema_shown rep, count_shown rep) \<and>
           rows_loaded rep = n_rows df \<and> columns_loaded rep = length df \<and>
           dtypes_shown rep = map (\<lambda>s. (name s, dtype s)) df"
proof -
  have ex: "path_exists (csv_path a) w"
  proof (rule ccontr)
    assume "\<not> path_exists (csv_path a) w"
    then show False using assms by (simp add: main_def)
  qed
  obtain df where df: "load_csv e (csv_path a) w = Inr df"
  proof (cases "load_csv e (csv_path a) w")
    case (Inl err)
    then show ?thesis using assms ex by (simp add: main_def)
  next
    case (Inr df)
    then show ?thesis using that by simp
  qed
  obtain r w' where wr': "write_sqlite df (db_path a) (table_name a) Replace w = (r, w')"
    by (cases "write_sqlite df (db_path a) (table_name a) Replace w") simp
  have step: "main e a w =
      (case r of
         Inl err \<Rightarrow> (Raised err, w')
       | Inr u \<Rightarrow>
           (case open_database (db_path a) w' of
              Inl err \<Rightarrow> (Raised err, w')
            | Inr db \<Rightarrow>
                (case read_back e (table_name a) db of
                   Inl err \<Rightarrow> (Raised err, w')
                 | Inr (schema, k) \<Rightarrow>
                     (Returned 0
                        \<lparr>rows_loaded = n_rows df, columns_loaded = length df,
                         dtypes_shown = map (\<lambda>s. (name s, dtype s)) df,
                         schema_shown = schema, count_shown = k\<rparr>, w'))))"
    using ex df wr' by (simp add: main_def)
  obtain u where r: "r = Inr u"
  proof (cases r)
    case (Inl err)
    then show ?thesis using assms step by simp
  next
    case (Inr u)
    then show ?thesis using that by simp
  qed
  obtain db where db: "open_database (db_path a) w' = Inr db"
  proof (cases "open_database (db_path a) w'")
    case (Inl err)
    then show ?thesis using assms step r by simp
  next
    case (Inr db)
    then show ?thesis using that by simp
  qed
  obtain schema k where rb: "read_back e (table_name a) db = Inr (schema, k)"
  proof (cases "read_back e (table_name a) db")
    case (Inl err)
    then show ?thesis using assms step r db by simp
  next
    case (Inr sk)
    then show ?thesis using that by (cases sk) simp
  qed
  have res: "Returned n rep = Returned 0
        \<lparr>rows_loaded = n_rows df, columns_loaded = length df,
         dtypes_shown = map (\<lambda>s. (name s, dtype s)) df,
         schema_shown = schema, count_shown = k\<rparr>" and w': "w1 = w'"
    using assms step r db rb by simp_all
  have wr: "write_sqlite df (db_path a) (table_name a) Replace w = (Inr u, w1)"
    using wr' r w' by simp
  obtain wm db0 where mk: "makedirs (dirname (db_path a)) w = Inr wm"
    and op: "open_database (db_path a) wm = Inr db0" and ne: "db_path a \<noteq> []"
    and w1: "w1 = wm(db_path a \<mapsto> File (Sqlite (db0(table_name a \<mapsto> table_of df))))"
    using write_sqlite_replace_ok [OF wr] by blast
  have "open_database (db_path a) w1 = Inr (db0(table_name a \<mapsto> table_of df))"
    unfolding w1 using ne by (rule open_database_written)
  then have dbeq: "db = db0(table_name a \<mapsto> table_of df)"
    using db w' by simp
  have "n = 0 \<and>
      read_back e (table_name a) (db0(table_name a \<mapsto> table_of df))
        = Inr (schema_shown rep, count_shown rep) \<and>
      rows_loaded rep = n_rows df \<and> columns_loaded rep = length df \<and>
      dtypes_shown rep = map (\<lambda>s. (name s, dtype s)) df"
    using res rb dbeq by simp
  then show ?thesis
    using ex df mk op ne w1 by blast
qed

lemma load_csv_same_file: "w1 p = w p \<Longrightarrow> load_csv e p w1 = load_csv e p w"
  by (simp add: load_csv_def)

section \<open>The writer and the run\<close>

text \<open>The sample file, as the loader returns it.\<close>

lemma sample_read:
  "simple_read_csv (Plain sample_csv) =
     Inr [\<lparr>name = ''down'', dtype = ObjectD, cells = [Str ''1'', NA]\<rparr>,
          \<lparr>name = ''gain'', dtype = ObjectD, cells = [Str ''2'', Str ''3'']\<rparr>,
          \<lparr>name = ''note'', dtype = ObjectD, cells = [Str ''x'', NA]\<rparr>]"
  by (simp add: simple_read_csv_def sample_csv_def split_on_def field_cell_def Let_def
        upt_rec_numeral)

lemma sample_coerced:
  "coerced integer_literal
     [\<lparr>name = ''down'', dtype = ObjectD, cells = [Str ''1'', NA]\<rparr>,
      \<lparr>name = ''gain'', dtype = ObjectD, cells = [Str ''2'', Str ''3'']\<rparr>,
      \<lparr>name = ''note'', dtype = ObjectD, cells = [Str ''x'', NA]\<rparr>] = sample_frame"
  by (simp add: eval_defs sample_frame_def)

lemma sample_load:
  "w [''data'', ''plays.csv''] = Some (File (Plain sample_csv)) \<Longrightarrow>
     load_csv sample_env [''data'', ''plays.csv''] w = Inr sample_frame"
  by (simp add: load_csv_def sample_env_def sample_read sample_coerced)

lemma sample_table:
  "table_of sample_frame =
     \<lparr>columns = [(''down'', INTEGER), (''gain'', INTEGER), (''note'', TEXT)],
      rows = [[SqlInt 1, SqlInt 2, SqlText ''x''], [NULL, SqlInt 3, NULL]]\<rparr>"
  by (simp add: table_of_def frame_rows_def n_rows_def sample_frame_def upt_rec_numeral)

lemma sample_run:
  "fst (main sample_env sample_args sample_world) =
     Returned 0
       \<lparr>rows_loaded = 2, columns_loaded = 3,
        dtypes_shown = [(''down'', NInt64D), (''gain'', NInt64D), (''note'', StringD)],
        schema_shown = [(''down'', INTEGER), (''gain'', INTEGER), (''note'', TEXT)],
        count_shown = 2\<rparr>"
proof -
  have ld: "load_csv sample_env (csv_path sample_args) sample_world = Inr sample_frame"
    by (simp add: sample_args_def sample_load sample_world_def)
  have mk: "makedirs (dirname (db_path sample_args)) sample_world
      = Inr (sample_world([''out''] \<mapsto> Dir, [''out'', ''db''] \<mapsto> Dir))"
    by (simp add: makedirs_def dirname_def sample_args_def sample_world_def)
  have op: "open_database (db_path sample_args)
      (sample_world([''out''] \<mapsto> Dir, [''out'', ''db''] \<mapsto> Dir)) = Inr Map.empty"
    by (simp add: open_database_def dirname_def isdir_def sample_args_def sample_world_def)
  have wr: "write_sqlite sample_frame (db_path sample_args) (table_name sample_args) Replace
      sample_world
      = (Inr (), (sample_world([''out''] \<mapsto> Dir, [''out'', ''db''] \<mapsto> Dir))
           (db_path sample_args \<mapsto> File (Sqlite [table_name sample_args \<mapsto> table_of sample_frame])))"
    by (simp add: write_sqlite_def mk op to_sql_replace)
  have ne: "db_path sample_args \<noteq> []"
    by (simp add: sample_args_def)
  have rb: "read_back sample_env (table_name sample_args)
      [table_name sample_args \<mapsto> table_of sample_frame]
      = Inr ([(''down'', INTEGER), (''gain'', INTEGER), (''note'', TEXT)], 2)"
    by (simp add: read_back_def sample_env_def sample_args_def sqlite_name_def name_char_def
          digit_of_def sample_table)
  have ex: "path_exists (csv_path sample_args) sample_world"
    by (simp add: path_exists_def sample_args_def sample_world_def)
  show ?thesis
    using ex by (simp add: main_def ld wr open_database_written [OF ne] rb)
      (simp add: sample_frame_def n_rows_def)
qed






text \<open>
  The check after the write reads the table just written when the name, unquoted in a
  statement, denotes that table: then the row count and the column names it reports are
  those of the frame.
\<close>

lemma plain_table_name_round_trip:
  assumes "main e a w = (Returned n rep, w1)"
    and "sql_name e (table_name a) = Some (table_name a)"
  shows "count_shown rep = rows_loaded rep \<and>
         map fst (schema_shown rep) = map fst (dtypes_shown rep) \<and>
         length (schema_shown rep) = columns_loaded rep"
proof -
  obtain df db0 where
    rb: "read_back e (table_name a) (db0(table_name a \<mapsto> table_of df))
      = Inr (schema_shown rep, count_shown rep)"
    and rl: "rows_loaded rep = n_rows df" and cl: "columns_loaded rep = length df"
    and ds: "dtypes_shown rep = map (\<lambda>s. (name s, dtype s)) df"
    using main_returned [OF assms(1)] by blast
  have "schema_shown rep = columns (table_of df) \<and> count_shown rep = length (rows (table_of df))"
    using rb assms(2) by (simp add: read_back_def)
  then show ?thesis
    using rl cl ds by (simp add: table_of_def length_frame_rows comp_def)
qed

text \<open>
  Claim C3 fails on the code. pandas quotes the table name when it writes; the check puts
  the name into \<^verbatim>\<open>PRAGMA table_info(...)\<close> and \<^verbatim>\<open>SELECT COUNT(*) FROM ...\<close> as it is. With
  \<^verbatim>\<open>--table '"plays"'\<close> the two rows go into a table named \<^verbatim>\<open>"plays"\<close>, quotes included,
  and the check reads the older table \<^verbatim>\<open>plays\<close>: the run returns and reports one column
  and three rows for a frame of three columns and two rows.
\<close>

theorem quoted_table_name_reads_back_other_table:
  "fst (main sample_env quoted_args used_world) =
     Returned 0
       \<lparr>rows_loaded = 2, columns_loaded = 3,
        dtypes_shown = [(''down'', NInt64D), (''gain'', NInt64D), (''note'', StringD)],
        schema_shown = [(''team'', TEXT)], count_shown = 3\<rparr>"
proof -
  let ?tn = "CHR 0x22 # ''plays'' @ [CHR 0x22]"
  have ld: "load_csv sample_env (csv_path quoted_args) used_world = Inr sample_frame"
    by (simp add: quoted_args_def sample_load used_world_def)
  have mk: "makedirs (dirname (db_path quoted_args)) used_world = Inr used_world"
    by (simp add: makedirs_def dirname_def quoted_args_def)
  have op: "open_database (db_path quoted_args) used_world = Inr [''plays'' \<mapsto> old_table]"
    by (simp add: open_database_def quoted_args_def used_world_def)
  have wr: "write_sqlite sample_frame (db_path quoted_args) (table_name quoted_args) Replace
      used_world
      = (Inr (), used_world(db_path quoted_args \<mapsto>
           File (Sqlite [''plays'' \<mapsto> old_table, table_name quoted_args \<mapsto> table_of sample_frame])))"
    by (simp add: write_sqlite_def mk op to_sql_replace)
  have ne: "db_path quoted_args \<noteq> []"
    by (simp add: quoted_args_def)
  have rb: "read_back sample_env (table_name quoted_args)
      [''plays'' \<mapsto> old_table, table_name quoted_args \<mapsto> table_of sample_frame]
      = Inr ([(''team'', TEXT)], 3)"
    by (simp add: read_back_def sample_env_def quoted_args_def sqlite_name_def old_table_def)
  have ex: "path_exists (csv_path quoted_args) used_world"
    by (simp add: path_exists_def quoted_args_def used_world_def)
  show ?thesis
    using ex by (simp add: main_def ld wr open_database_written [OF ne] rb)
      (simp add: sample_frame_def n_rows_def)
qed

text \<open>
  Claim C6. When a run has returned and the input file is the one it read, a second run
  with the same arguments returns the same report and leaves every file and directory as
  the first run left it; the database file holds, under the table name, the table of the
  loaded frame: same schema, same rows, same values.
\<close>

theorem second_run_leaves_same_table:
  assumes "main e a w = (Returned n rep, w1)" and "w1 (csv_path a) = w (csv_path a)"
  shows "main e a w1 = (Returned n rep, w1) \<and>
         (\<exists>df db. load_csv e (csv_path a) w = Inr df \<and>
            w1 (db_path a) = Some (File (Sqlite db)) \<and> db (table_name a) = Some (table_of df))"
proof -
  obtain df wm db0 where ex: "path_exists (csv_path a) w"
    and df: "load_csv e (csv_path a) w = Inr df"
    and mk: "makedirs (dirname (db_path a)) w = Inr wm"
    and ne: "db_path a \<noteq> []"
    and w1: "w1 = wm(db_path a \<mapsto> File (Sqlite (db0(table_name a \<mapsto> table_of df))))"
    and n: "n = 0"
    and rb: "read_back e (table_name a) (db0(table_name a \<mapsto> table_of df))
      = Inr (schema_shown rep, count_shown rep)"
    and rl: "rows_loaded rep = n_rows df" and cl: "columns_loaded rep = length df"
    and ds: "dtypes_shown rep = map (\<lambda>s. (name s, dtype s)) df"
    using main_returned [OF assms(1)] by blast
  let ?db = "db0(table_name a \<mapsto> table_of df)"
  have ex1: "path_exists (csv_path a) w1"
    using ex assms(2) by (simp add: path_exists_def)
  have df1: "load_csv e (csv_path a) w1 = Inr df"
    using df assms(2) load_csv_same_file [of w1 "csv_path a" w e] by simp
  have dirs: "\<forall>k. 0 < k \<and> k \<le> length (dirname (db_path a)) \<longrightarrow>
      w1 (take k (dirname (db_path a))) = Some Dir"
  proof (intro allI impI)
    fix k assume k: "0 < k \<and> k \<le> length (dirname (db_path a))"
    then have "length (take k (dirname (db_path a))) < length (db_path a)"
      using ne by (cases "db_path a" rule: rev_cases) (simp_all add: dirname_def)
    then have "take k (dirname (db_path a)) \<noteq> db_path a"
      by (metis less_irrefl)
    then show "w1 (take k (dirname (db_path a))) = Some Dir"
      using makedirs_dirs [OF mk] k by (simp add: w1)
  qed
  have mk1: "makedirs (dirname (db_path a)) w1 = Inr w1"
    using dirs by (rule makedirs_again)
  have op1: "open_database (db_path a) w1 = Inr ?db"
    unfolding w1 using ne by (rule open_database_written)
  have at: "w1 (db_path a) = Some (File (Sqlite ?db))"
    by (subst w1) simp
  have same: "w1(db_path a \<mapsto> File (Sqlite ?db)) = w1"
    using at by (simp add: map_upd_triv)
  have wr1: "write_sqlite df (db_path a) (table_name a) Replace w1 = (Inr (), w1)"
    by (simp add: write_sqlite_def mk1 op1 to_sql_replace same)
  have rep: "rep = \<lparr>rows_loaded = n_rows df, columns_loaded = length df,
      dtypes_shown = map (\<lambda>s. (name s, dtype s)) df,
      schema_shown = schema_shown rep, count_shown = count_shown rep\<rparr>"
    using rl cl ds by simp
  have "main e a w1 = (Returned 0 \<lparr>rows_loaded = n_rows df, columns_loaded = length df,
      dtypes_shown = map (\<lambda>s. (name s, dtype s)) df,
      schema_shown = schema_shown rep, count_shown = count_shown rep\<rparr>, w1)"
    using ex1 by (simp add: main_def df1 wr1 op1 rb)
  then have "main e a w1 = (Returned n rep, w1)"
    using rep n by simp
  moreover have "w1 (db_path a) = Some (File (Sqlite ?db)) \<and> ?db (table_name a) = Some (table_of df)"
    using at by simp
  ultimately show ?thesis
    using df by blast
qed

text \<open>C6 on the sample directory: the second run repeats the first.\<close>

theorem second_run_leaves_same_table_witness:
  "fst (main sample_env sample_args sample_world) =
     Returned 0
       \<lparr>rows_loaded = 2, columns_loaded = 3,
        dtypes_shown = [(''down'', NInt64D), (''gain'', NInt64D), (''note'', StringD)],
        schema_shown = [(''down'', INTEGER), (''gain'', INTEGER), (''note'', TEXT)],
        count_shown = 2\<rparr> \<and>
   main sample_env sample_args (snd (main sample_env sample_args sample_world))
     = main sample_env sample_args sample_world"
proof -
  let ?rep = "\<lparr>rows_loaded = 2, columns_loaded = 3,
        dtypes_shown = [(''down'', NInt64D), (''gain'', NInt64D), (''note'', StringD)],
        schema_shown = [(''down'', INTEGER), (''gain'', INTEGER), (''note'', TEXT)],
        count_shown = 2\<rparr>"
  let ?w1 = "snd (main sample_env sample_args sample_world)"
  have h1: "main sample_env sample_args sample_world = (Returned 0 ?rep, ?w1)"
    using sample_run by (simp add: prod_eq_iff)
  obtain wm db0 df where "?w1 = wm(db_path sample_args \<mapsto> File (Sqlite (db0(table_name sample_args \<mapsto> table_of df))))"
    and mk: "makedirs (dirname (db_path sample_args)) sample_world = Inr wm"
    using main_returned [OF h1] by blast
  then have h2: "?w1 (csv_path sample_args) = sample_world (csv_path sample_args)"
    using makedirs_dirs [OF mk] by (simp add: sample_args_def sample_world_def)
  show ?thesis
    using second_run_leaves_same_table [OF h1 h2] h1 sample_run by simp
qed



end
